theory Spec2Isabelle
  imports Main
begin

section \<open>Data model (src/types/azureTypes.ts)\<close>

text \<open>
  The interfaces of \<^verbatim>\<open>azureTypes.ts\<close> become records. Record fields are global
  constants, so a field name shared by two interfaces carries a prefix. An optional
  field (\<^verbatim>\<open>field?: T\<close>) is an \<open>option\<close>; \<open>None\<close> is JavaScript's
  \<^verbatim>\<open>undefined\<close>.

  JavaScript numbers are modelled as natural numbers or integers: the model is exact
  for the integers a double represents exactly (below \<open>2 ^ 53\<close>), which is where
  version components and work-item numbers live. Strings are \<open>string\<close>.
\<close>

record GitRef =
  ref_name :: string
  objectId :: string

record WorkItemReference =
  wir_id :: string
  wir_url :: string

record GitAuthor =
  author_name :: string
  author_email :: string
  author_date :: string

record GitCommit =
  commitId :: string
  author :: GitAuthor
  comment :: string
  commit_workItems :: "WorkItemReference list option"

record WorkItemFields =
  System_WorkItemType :: string
  System_Title :: string
  System_State :: "string option"
  Custom_IntegrationBuild :: "string option"

record WorkItem =
  wi_id :: int
  wi_fields :: WorkItemFields
  wi_url :: string

datatype BumpType = Major | Minor

record Repository =
  repo_id :: string
  repo_name :: string
  currentVersion :: "string option"
  selected :: "bool option"
  bumpType :: "BumpType option"

record ReleaseProcessingResult =
  repository :: string
  success :: bool
  newVersion :: "string option"
  error :: "string option"
  workItems :: "WorkItem list option"

text \<open>
  The annotated-tag object the remote system returns
  (\<^verbatim>\<open>{ taggedObject: { objectId: string } }\<close>).
\<close>

record TagObject =
  taggedObject_objectId :: string

text \<open>
  The part of the application store (\<^verbatim>\<open>useAppStore\<close>) that
  \<^verbatim>\<open>processReleases\<close> reads and writes.
\<close>

record AppState =
  repositories :: "Repository list"
  isProcessing :: bool
  processingResults :: "ReleaseProcessingResult list"
  consolidatedWorkItems :: "WorkItem list"

text \<open>
  A thrown value: an \<^verbatim>\<open>Error\<close> object with its message, or any other value
  (\<^verbatim>\<open>error instanceof Error\<close> is false for it). A call that may throw returns
  \<open>thrown + 'a\<close>.
\<close>

datatype thrown = Error string | NonError

section \<open>Strings and numbers\<close>

definition isDigit :: "char \<Rightarrow> bool" where
  "isDigit c = (48 \<le> (of_char c :: nat) \<and> (of_char c :: nat) \<le> 57)"

definition digitValue :: "char \<Rightarrow> nat" where
  "digitValue c = of_char c - 48"

definition digitChar :: "nat \<Rightarrow> char" where
  "digitChar d = ''0123456789'' ! d"

text \<open>The value of a string of decimal digits, most significant digit first.\<close>

definition decimalValue :: "string \<Rightarrow> nat" where
  "decimalValue ds = foldl (\<lambda>a c. 10 * a + digitValue c) 0 ds"

text \<open>The decimal rendering of a natural number, as a template literal prints it.\<close>

fun decimalString :: "nat \<Rightarrow> string" where
  "decimalString n =
     (if n < 10 then [digitChar n] else decimalString (n div 10) @ [digitChar (n mod 10)])"

declare decimalString.simps [simp del]

text \<open>
  A JavaScript number as far as version arithmetic needs it: a natural number or
  \<^verbatim>\<open>NaN\<close>. \<open>Number_js\<close> is \<^verbatim>\<open>Number(s)\<close> on the strings the version code
  meets: the empty string is \<open>0\<close>, a string of decimal digits is its value. Every other
  string is taken to \<^verbatim>\<open>NaN\<close>; JavaScript also reads signs, blanks, fractions, exponents
  and radix prefixes, none of which a release-branch name captured by
  \<^verbatim>\<open>(\d+\.\d+)\<close> contains.
\<close>

datatype jsnum = Fin nat | NaN

definition Number_js :: "string \<Rightarrow> jsnum" where
  "Number_js s =
     (if s = [] then Fin 0 else if list_all isDigit s then Fin (decimalValue s) else NaN)"

fun plus_one :: "jsnum option \<Rightarrow> jsnum" where
  "plus_one (Some (Fin n)) = Fin (n + 1)"
| "plus_one (Some NaN) = NaN"
| "plus_one None = NaN"

fun toString :: "jsnum \<Rightarrow> string" where
  "toString (Fin n) = decimalString n"
| "toString NaN = ''NaN''"

text \<open>\<^verbatim>\<open>s.split(sep)\<close> for a one-character separator.\<close>

fun split :: "char \<Rightarrow> string \<Rightarrow> string list" where
  "split sep [] = [[]]"
| "split sep (c # cs) =
     (if c = sep then [] # split sep cs
      else (case split sep cs of [] \<Rightarrow> [[c]] | p # ps \<Rightarrow> (c # p) # ps))"

text \<open>Array destructuring \<^verbatim>\<open>[a, b] = xs\<close> reads \<^verbatim>\<open>xs[0]\<close>, \<^verbatim>\<open>xs[1]\<close>;
  an index past the end reads \<^verbatim>\<open>undefined\<close>.\<close>

definition at_index :: "'a list \<Rightarrow> nat \<Rightarrow> 'a option" where
  "at_index xs i = (if i < length xs then Some (xs ! i) else None)"

section \<open>Version bump (calculateNewVersion)\<close>

text \<open>
  \<^verbatim>\<open>
  const calculateNewVersion = (currentVersion, bumpType) => {
    if (!currentVersion || currentVersion === 'No releases' || currentVersion === 'Error loading') {
      return bumpType === 'major' ? '1.0' : '0.1';
    }
    const [major, minor] = currentVersion.split('.').map(Number);
    if (bumpType === 'major') { return `${major + 1}.0`; }
    else { return `${major}.${minor + 1}`; }
  };
  \<close>
  \<^verbatim>\<open>!currentVersion\<close> holds for \<^verbatim>\<open>undefined\<close> and for the empty string. The bump
  type is an \<open>option\<close> because the caller passes \<^verbatim>\<open>repo.bumpType!\<close>, an optional
  field: at run time an absent bump type is simply not \<^verbatim>\<open>'major'\<close>.
\<close>

definition calculateNewVersion :: "string option \<Rightarrow> BumpType option \<Rightarrow> string" where
  "calculateNewVersion cur bump =
     (let seed = (if bump = Some Major then ''1.0'' else ''0.1'') in
      case cur of
        None \<Rightarrow> seed
      | Some v \<Rightarrow>
          if v = [] \<or> v = ''No releases'' \<or> v = ''Error loading'' then seed
          else
            (let nums = map Number_js (split (CHR ''.'') v);
                 major = at_index nums 0;
                 minor = at_index nums 1
             in if bump = Some Major
                then toString (plus_one major) @ ''.0''
                else (case major of None \<Rightarrow> ''undefined'' | Some m \<Rightarrow> toString m)
                     @ ''.'' @ toString (plus_one minor)))"



section \<open>Regular expressions of the source, as string scanners\<close>

text \<open>
  \<^verbatim>\<open>s.startsWith(p)\<close>, and the rest of \<open>s\<close> after a prefix that matches \<open>p\<close>
  character by character under \<open>eq\<close>.
\<close>

definition startsWith :: "string \<Rightarrow> string \<Rightarrow> bool" where
  "startsWith s p = (take (length p) s = p)"

fun stripPrefixBy :: "(char \<Rightarrow> char \<Rightarrow> bool) \<Rightarrow> string \<Rightarrow> string \<Rightarrow> string option" where
  "stripPrefixBy eq [] t = Some t"
| "stripPrefixBy eq (p # ps) [] = None"
| "stripPrefixBy eq (p # ps) (c # cs) = (if eq p c then stripPrefixBy eq ps cs else None)"

text \<open>
  Under the \<^verbatim>\<open>i\<close> flag two characters match when their upper-case forms agree. The
  patterns of the source hold ASCII letters only, and only an ASCII letter has an ASCII
  letter as its upper-case form.
\<close>

definition toUpperCase :: "char \<Rightarrow> char" where
  "toUpperCase c =
     (if 97 \<le> (of_char c :: nat) \<and> (of_char c :: nat) \<le> 122
      then char_of ((of_char c :: nat) - 32) else c)"

definition eqIgnoreCase :: "char \<Rightarrow> char \<Rightarrow> bool" where
  "eqIgnoreCase a b = (toUpperCase a = toUpperCase b)"

text \<open>
  An unanchored regular expression is tried at every start position, leftmost first;
  \<open>m\<close> is the match attempt at the start of its argument.
\<close>

fun regexSearch :: "(string \<Rightarrow> 'a option) \<Rightarrow> string \<Rightarrow> 'a option" where
  "regexSearch m [] = m []"
| "regexSearch m (c # cs) = (case m (c # cs) of Some r \<Rightarrow> Some r | None \<Rightarrow> regexSearch m cs)"

text \<open>
  \<^verbatim>\<open>(\d+)\<close>: the longest run of digits, which must not be empty. What follows the
  group in each pattern of the source is no digit, so the greedy run is the only
  candidate. The result is the captured digits and the text after them.
\<close>

definition digitRun :: "string \<Rightarrow> (string \<times> string) option" where
  "digitRun t =
     (if takeWhile isDigit t = [] then None
      else Some (takeWhile isDigit t, dropWhile isDigit t))"

text \<open>\<^verbatim>\<open>/Merged PR (\d+)/i\<close> with \<^verbatim>\<open>String.prototype.match\<close>: the capture of the
  first match.\<close>

definition mergedPrAt :: "string \<Rightarrow> string option" where
  "mergedPrAt t =
     (case stripPrefixBy eqIgnoreCase ''Merged PR '' t of
        None \<Rightarrow> None
      | Some rest \<Rightarrow> map_option fst (digitRun rest))"

definition prMatch :: "string \<Rightarrow> string option" where
  "prMatch msg = regexSearch mergedPrAt msg"

text \<open>
  \<^verbatim>\<open>/#(\d+)|AB#(\d+)/gi\<close> at one position: the first alternative, then the second.
  The result is \<^verbatim>\<open>match[1] || match[2]\<close> and the text after the match.
\<close>

definition workItemRefAt :: "string \<Rightarrow> (string \<times> string) option" where
  "workItemRefAt t =
     (case (case stripPrefixBy (=) ''#'' t of None \<Rightarrow> None | Some rest \<Rightarrow> digitRun rest) of
        Some r \<Rightarrow> Some r
      | None \<Rightarrow>
          (case stripPrefixBy eqIgnoreCase ''AB#'' t of
             None \<Rightarrow> None
           | Some rest \<Rightarrow> digitRun rest))"

lemma digitRun_shorter: "digitRun t = Some (d, rest) \<Longrightarrow> length rest \<le> length t"
  by (auto simp: digitRun_def length_dropWhile_le split: if_splits)

lemma stripPrefixBy_shorter:
  "stripPrefixBy eq p t = Some rest \<Longrightarrow> p \<noteq> [] \<Longrightarrow> length rest < length t"
proof (induction eq p t rule: stripPrefixBy.induct)
  case (3 eq p ps c cs)
  then show ?case
    by (cases ps) (auto split: if_splits)
qed simp_all

lemma workItemRefAt_shorter: "workItemRefAt t = Some (d, rest) \<Longrightarrow> length rest < length t"
  unfolding workItemRefAt_def
  by (fastforce split: option.splits dest: stripPrefixBy_shorter digitRun_shorter)

text \<open>\<^verbatim>\<open>matchAll\<close>: every match from left to right, each search resuming where the
  previous match ended.\<close>

function wiMatches :: "string \<Rightarrow> string list" where
  "wiMatches [] = []"
| "wiMatches (c # cs) =
     (case workItemRefAt (c # cs) of
        Some (d, rest) \<Rightarrow> d # wiMatches rest
      | None \<Rightarrow> wiMatches cs)"
  by pat_completeness auto
termination
  by (relation "measure length") (auto dest: workItemRefAt_shorter)



text \<open>\<^verbatim>\<open>s.replace(pat, rep)\<close> with a string pattern: the first occurrence only.\<close>

fun replaceFirst :: "string \<Rightarrow> string \<Rightarrow> string \<Rightarrow> string" where
  "replaceFirst pat rep [] = (if pat = [] then rep else [])"
| "replaceFirst pat rep (c # cs) =
     (if startsWith (c # cs) pat then rep @ drop (length pat) (c # cs)
      else c # replaceFirst pat rep cs)"


section \<open>Collections\<close>

text \<open>
  A JavaScript \<^verbatim>\<open>Set\<close> keeps its members in insertion order and ignores a member
  added again: a list without duplicates, new members at the end.
\<close>

definition Set_add :: "'a \<Rightarrow> 'a list \<Rightarrow> 'a list" where
  "Set_add x xs = (if x \<in> set xs then xs else xs @ [x])"

definition Set_addAll :: "'a list \<Rightarrow> 'a list \<Rightarrow> 'a list" where
  "Set_addAll ys xs = foldl (\<lambda>acc y. Set_add y acc) xs ys"

text \<open>
  A JavaScript \<^verbatim>\<open>Map\<close> keeps its entries in the order in which their keys were
  first inserted; \<^verbatim>\<open>set\<close> on a key already there replaces the value in place.
  \<^verbatim>\<open>new Map(entries)\<close> sets the entries one after the other.
\<close>

fun Map_set :: "'k \<Rightarrow> 'v \<Rightarrow> ('k \<times> 'v) list \<Rightarrow> ('k \<times> 'v) list" where
  "Map_set k v [] = [(k, v)]"
| "Map_set k v ((k', v') # m) = (if k' = k then (k, v) # m else (k', v') # Map_set k v m)"

definition Map_new :: "('k \<times> 'v) list \<Rightarrow> ('k \<times> 'v) list" where
  "Map_new entries = foldl (\<lambda>m (k, v). Map_set k v m) [] entries"

definition Map_values :: "('k \<times> 'v) list \<Rightarrow> 'v list" where
  "Map_values m = map snd m"

text \<open>\<^verbatim>\<open>xs.findIndex(p)\<close>; \<open>None\<close> is \<open>-1\<close>.\<close>

fun findIndex :: "('a \<Rightarrow> bool) \<Rightarrow> 'a list \<Rightarrow> nat option" where
  "findIndex p [] = None"
| "findIndex p (x # xs) = (if p x then Some 0 else map_option Suc (findIndex p xs))"



section \<open>Retry (src/utils/retryUtils.ts)\<close>

text \<open>
  A call on the remote system takes the state of the world and returns a value or a
  thrown value, and the state after the call.

  \<^verbatim>\<open>retryAsync(fn)\<close> runs \<open>fn\<close> up to \<^verbatim>\<open>maxAttempts = 3\<close> times and rethrows the
  last error; the delays between the attempts are not modelled. Every thrown value is
  taken to be truthy, so \<^verbatim>\<open>lastError || new Error(...)\<close> is the last error as soon as
  one attempt was made.
\<close>

type_synonym ('s, 'a) call = "'s \<Rightarrow> (thrown + 'a) \<times> 's"

fun retryLoop :: "nat \<Rightarrow> thrown option \<Rightarrow> ('s, 'a) call \<Rightarrow> ('s, 'a) call" where
  "retryLoop 0 lastError fn s =
     (Inl (case lastError of Some e \<Rightarrow> e | None \<Rightarrow> Error ''Max retry attempts reached''), s)"
| "retryLoop (Suc k) lastError fn s =
     (case fn s of
        (Inr v, s') \<Rightarrow> (Inr v, s')
      | (Inl e, s') \<Rightarrow> retryLoop k (Some e) fn s')"

definition retryAsync :: "('s, 'a) call \<Rightarrow> ('s, 'a) call" where
  "retryAsync fn = retryLoop 3 None fn"

section \<open>The remote system and the service (src/services/azureDevOpsService.ts)\<close>

text \<open>
  The REST endpoints the service calls, one field for each, with the parts of the URL
  and of the body that vary as arguments. An endpoint answers with the decoded
  \<^verbatim>\<open>value\<close> of the response, or throws (a failed request, a status that is not ok).
  The state \<open>'s\<close> is the remote system's own: refs and tags created, work items as
  they are at the time of the call.
\<close>

record 's remote =
  GET_refs :: "string \<Rightarrow> string \<Rightarrow> ('s, GitRef list) call"
  POST_refs :: "string \<Rightarrow> string \<Rightarrow> string \<Rightarrow> ('s, GitRef list) call"
  POST_annotatedtags :: "string \<Rightarrow> string \<Rightarrow> string \<Rightarrow> string \<Rightarrow> ('s, unit) call"
  GET_annotatedtag :: "string \<Rightarrow> string \<Rightarrow> ('s, TagObject) call"
  GET_commits_compare :: "string \<Rightarrow> string \<Rightarrow> string \<Rightarrow> ('s, GitCommit list) call"
  GET_commits_from :: "string \<Rightarrow> string \<Rightarrow> ('s, GitCommit list) call"
  GET_commit_workitems :: "string \<Rightarrow> string \<Rightarrow> ('s, string list) call"
  GET_pullrequest_workitems :: "string \<Rightarrow> string \<Rightarrow> ('s, string list) call"
  GET_workitem :: "string \<Rightarrow> ('s, WorkItem) call"


definition getRepositoryTags :: "'s remote \<Rightarrow> string \<Rightarrow> ('s, GitRef list) call" where
  "getRepositoryTags r repositoryId = retryAsync (GET_refs r repositoryId ''tags'')"

definition getMainBranchCommit :: "'s remote \<Rightarrow> string \<Rightarrow> ('s, string) call" where
  "getMainBranchCommit r repositoryId =
     retryAsync (\<lambda>s.
       case GET_refs r repositoryId ''heads/main'' s of
         (Inl e, s') \<Rightarrow> (Inl e, s')
       | (Inr [], s') \<Rightarrow> (Inl (Error ''Main branch not found''), s')
       | (Inr (x # xs), s') \<Rightarrow> (Inr (objectId x), s'))"





text \<open>
  \<^verbatim>\<open>createBranch\<close> looks the source branch up (not retried), then posts the new ref.
  It returns \<^verbatim>\<open>response.value[0]\<close>.
\<close>

definition createBranch ::
  "'s remote \<Rightarrow> string \<Rightarrow> string \<Rightarrow> string \<Rightarrow> ('s, GitRef option) call" where
  "createBranch r repositoryId branchName sourceBranch s =
     (case GET_refs r repositoryId (replaceFirst ''refs/heads/'' ''heads/'' sourceBranch) s of
        (Inl e, s1) \<Rightarrow> (Inl e, s1)
      | (Inr [], s1) \<Rightarrow> (Inl (Error (''Source branch '' @ sourceBranch @ '' not found'')), s1)
      | (Inr (src # rest), s1) \<Rightarrow>
          retryAsync (\<lambda>s.
            case POST_refs r repositoryId branchName (objectId src) s of
              (Inl e, s') \<Rightarrow> (Inl e, s')
            | (Inr created, s') \<Rightarrow> (Inr (at_index created 0), s')) s1)"

definition createTag ::
  "'s remote \<Rightarrow> string \<Rightarrow> string \<Rightarrow> string \<Rightarrow> string \<Rightarrow> ('s, unit) call" where
  "createTag r repositoryId tagName commit message =
     retryAsync (POST_annotatedtags r repositoryId tagName commit message)"

definition getTagObject :: "'s remote \<Rightarrow> string \<Rightarrow> string \<Rightarrow> ('s, TagObject) call" where
  "getTagObject r repositoryId tagObjectId = retryAsync (GET_annotatedtag r repositoryId tagObjectId)"

text \<open>
  \<^verbatim>\<open>
  try {
    const tagObject = await this.getTagObject(repositoryId, tagRef.objectId);
    return tagObject.taggedObject.objectId;
  } catch (error) {
    console.error(...);
    return tagRef.objectId;
  }
  \<close>
  The result type has no error: the handler returns on every thrown value.
\<close>

definition resolveTagCommitId ::
  "'s remote \<Rightarrow> string \<Rightarrow> GitRef \<Rightarrow> string \<Rightarrow> 's \<Rightarrow> string \<times> 's" where
  "resolveTagCommitId r repositoryId tagRef tagName s =
     (case getTagObject r repositoryId (objectId tagRef) s of
        (Inr tagObject, s') \<Rightarrow> (taggedObject_objectId tagObject, s')
      | (Inl e, s') \<Rightarrow> (objectId tagRef, s'))"

definition getCommitsBetweenBranches ::
  "'s remote \<Rightarrow> string \<Rightarrow> string \<Rightarrow> string \<Rightarrow> ('s, GitCommit list) call" where
  "getCommitsBetweenBranches r repositoryId baseBranch compareBranch =
     retryAsync (GET_commits_compare r repositoryId compareBranch baseBranch)"

text \<open>
  The body of the retried function of \<^verbatim>\<open>getCommitsBetweenTags\<close>, after the fetch:
  \<^verbatim>\<open>
  const oldCommitIndex = response.value.findIndex((c) => c.commitId === oldCommitId);
  if (oldCommitIndex === -1) { return response.value; }
  const filteredCommits = response.value.slice(0, oldCommitIndex);
  return filteredCommits;
  \<close>
\<close>

definition filteredCommits :: "string \<Rightarrow> GitCommit list \<Rightarrow> GitCommit list" where
  "filteredCommits oldCommitId fetched =
     (case findIndex (\<lambda>c. commitId c = oldCommitId) fetched of
        None \<Rightarrow> fetched
      | Some oldCommitIndex \<Rightarrow> take oldCommitIndex fetched)"

definition getCommitsBetweenTags ::
  "'s remote \<Rightarrow> string \<Rightarrow> string \<Rightarrow> string \<Rightarrow> ('s, GitCommit list) call" where
  "getCommitsBetweenTags r repositoryId oldTag newTag s =
     (case getRepositoryTags r repositoryId s of
        (Inl e, s1) \<Rightarrow> (Inl e, s1)
      | (Inr tags, s1) \<Rightarrow>
          (case (find (\<lambda>t. ref_name t = ''refs/tags/'' @ oldTag) tags,
                 find (\<lambda>t. ref_name t = ''refs/tags/'' @ newTag) tags) of
             (Some oldTagRef, Some newTagRef) \<Rightarrow>
               (case resolveTagCommitId r repositoryId oldTagRef oldTag s1 of
                  (oldCommitId, s2) \<Rightarrow>
                    (case resolveTagCommitId r repositoryId newTagRef newTag s2 of
                       (newCommitId, s3) \<Rightarrow>
                         retryAsync (\<lambda>s.
                           case GET_commits_from r repositoryId newCommitId s of
                             (Inl e, s') \<Rightarrow> (Inl e, s')
                           | (Inr fetched, s') \<Rightarrow> (Inr (filteredCommits oldCommitId fetched), s'))
                           s3))
           | _ \<Rightarrow> (Inl (Error (''Tags not found: '' @ oldTag @ '' or '' @ newTag)), s1)))"

text \<open>The two link queries catch every error and answer with the empty list.\<close>

definition getCommitWorkItems :: "'s remote \<Rightarrow> string \<Rightarrow> string \<Rightarrow> ('s, string list) call" where
  "getCommitWorkItems r repositoryId commit s =
     (case retryAsync (GET_commit_workitems r repositoryId commit) s of
        (Inr ids, s') \<Rightarrow> (Inr ids, s')
      | (Inl e, s') \<Rightarrow> (Inr [], s'))"

definition getPullRequestWorkItems :: "'s remote \<Rightarrow> string \<Rightarrow> string \<Rightarrow> ('s, string list) call" where
  "getPullRequestWorkItems r repositoryId pullRequestId s =
     (case retryAsync (GET_pullrequest_workitems r repositoryId pullRequestId) s of
        (Inr ids, s') \<Rightarrow> (Inr ids, s')
      | (Inl e, s') \<Rightarrow> (Inr [], s'))"

definition getWorkItem :: "'s remote \<Rightarrow> string \<Rightarrow> ('s, WorkItem) call" where
  "getWorkItem r workItemId = retryAsync (GET_workitem r workItemId)"

text \<open>
  The service object as \<^verbatim>\<open>processReleases\<close> sees it: the methods it calls. The
  pipeline below takes any such object; \<open>AzureDevOpsService r\<close> is the one the source
  builds (\<^verbatim>\<open>new AzureDevOpsService(patToken)\<close>), over the remote system \<open>r\<close>.
\<close>

record 's service =
  svc_getMainBranchCommit :: "string \<Rightarrow> ('s, string) call"
  svc_createBranch :: "string \<Rightarrow> string \<Rightarrow> string \<Rightarrow> ('s, GitRef option) call"
  svc_createTag :: "string \<Rightarrow> string \<Rightarrow> string \<Rightarrow> string \<Rightarrow> ('s, unit) call"
  svc_getCommitsBetweenTags :: "string \<Rightarrow> string \<Rightarrow> string \<Rightarrow> ('s, GitCommit list) call"
  svc_getCommitWorkItems :: "string \<Rightarrow> string \<Rightarrow> ('s, string list) call"
  svc_getWorkItem :: "string \<Rightarrow> ('s, WorkItem) call"

definition AzureDevOpsService :: "'s remote \<Rightarrow> 's service" where
  "AzureDevOpsService r =
     \<lparr> svc_getMainBranchCommit = getMainBranchCommit r,
       svc_createBranch = createBranch r,
       svc_createTag = createTag r,
       svc_getCommitsBetweenTags = getCommitsBetweenTags r,
       svc_getCommitWorkItems = getCommitWorkItems r,
       svc_getWorkItem = getWorkItem r \<rparr>"


section \<open>The application store (useAppStore)\<close>

definition resetProcessing :: "AppState \<Rightarrow> AppState" where
  "resetProcessing st =
     st\<lparr>isProcessing := False, processingResults := [], consolidatedWorkItems := []\<rparr>"

definition setIsProcessing :: "bool \<Rightarrow> AppState \<Rightarrow> AppState" where
  "setIsProcessing processing st = st\<lparr>isProcessing := processing\<rparr>"

definition addProcessingResult :: "ReleaseProcessingResult \<Rightarrow> AppState \<Rightarrow> AppState" where
  "addProcessingResult result st = st\<lparr>processingResults := processingResults st @ [result]\<rparr>"

definition setConsolidatedWorkItems :: "WorkItem list \<Rightarrow> AppState \<Rightarrow> AppState" where
  "setConsolidatedWorkItems items st = st\<lparr>consolidatedWorkItems := items\<rparr>"

section \<open>The release pipeline (processReleases of the ExportBar component)\<close>

text \<open>
  The pipeline is embedded from \<^verbatim>\<open>src/unnamed/part_003\<close>, the revision of the
  component that works from tag to tag and reads the commit messages. The file
  \<^verbatim>\<open>src/src/components/ExportBar/ExportBar.tsx\<close> holds an earlier revision of the
  same component, which compares release branches and only queries the links of each
  commit; its fetch loop and its deduplication are, line for line, the ones embedded
  here.
\<close>

text \<open>
  The loop over the commits of the range: the identifiers go into
  \<^verbatim>\<open>workItemIds\<close>, a \<^verbatim>\<open>Set<string>\<close>.
  \<^verbatim>\<open>
  for (const commit of commits) {
    if (commit.workItems && commit.workItems.length > 0) {
      commit.workItems.forEach((wi) => workItemIds.add(wi.id));
    }
    const prMatch = commit.comment.match(/Merged PR (\d+)/i);
    if (prMatch) { workItemIds.add(prMatch[1]); }
    const wiMatches = commit.comment.matchAll(/#(\d+)|AB#(\d+)/gi);
    for (const match of wiMatches) {
      const id = match[1] || match[2];
      if (id) { workItemIds.add(id); }
    }
    const ids = await service.getCommitWorkItems(repo.id, commit.commitId);
    ids.forEach((id) => workItemIds.add(id));
  }
  \<close>
  \<open>commitMessageIds\<close> is what one commit adds before the link query.
\<close>

definition commitMessageIds :: "GitCommit \<Rightarrow> string list \<Rightarrow> string list" where
  "commitMessageIds commit workItemIds =
     (let ids1 = (case commit_workItems commit of
                    None \<Rightarrow> workItemIds
                  | Some wis \<Rightarrow> Set_addAll (map wir_id wis) workItemIds);
          ids2 = (case prMatch (comment commit) of
                    None \<Rightarrow> ids1
                  | Some pr \<Rightarrow> Set_add pr ids1)
      in Set_addAll (filter (\<lambda>wid. wid \<noteq> []) (wiMatches (comment commit))) ids2)"

fun collectWorkItemIds ::
  "'s service \<Rightarrow> string \<Rightarrow> GitCommit list \<Rightarrow> string list \<Rightarrow> ('s, string list) call" where
  "collectWorkItemIds svc repositoryId [] workItemIds s = (Inr workItemIds, s)"
| "collectWorkItemIds svc repositoryId (commit # commits) workItemIds s =
     (case svc_getCommitWorkItems svc repositoryId (commitId commit) s of
        (Inl e, s') \<Rightarrow> (Inl e, s')
      | (Inr ids, s') \<Rightarrow>
          collectWorkItemIds svc repositoryId commits
            (Set_addAll ids (commitMessageIds commit workItemIds)) s')"

text \<open>
  The loop over the identifiers; the result is what was pushed to \<^verbatim>\<open>workItems\<close>
  (and, item for item, to \<^verbatim>\<open>allWorkItems\<close>).
  \<^verbatim>\<open>
  for (const id of workItemIds) {
    try {
      const workItem = await service.getWorkItem(id);
      workItems.push(workItem);
      allWorkItems.push(workItem);
    } catch (err) { console.error(...); }
  }
  \<close>
\<close>

fun fetchWorkItems :: "'s service \<Rightarrow> string list \<Rightarrow> 's \<Rightarrow> WorkItem list \<times> 's" where
  "fetchWorkItems svc [] s = ([], s)"
| "fetchWorkItems svc (wid # ids) s =
     (case svc_getWorkItem svc wid s of
        (Inr workItem, s') \<Rightarrow>
          (case fetchWorkItems svc ids s' of (items, s'') \<Rightarrow> (workItem # items, s''))
      | (Inl e, s') \<Rightarrow> fetchWorkItems svc ids s')"

text \<open>
  The inner \<^verbatim>\<open>try\<close> of step 4: the range, the identifiers, the work items. Its
  handler logs the error; nothing was pushed yet when the range or the collection
  throws, since the fetch loop comes last and cannot throw.
\<close>

definition harvestWorkItems ::
  "'s service \<Rightarrow> string \<Rightarrow> string \<Rightarrow> string \<Rightarrow> 's \<Rightarrow> WorkItem list \<times> 's" where
  "harvestWorkItems svc repositoryId oldTagName newTagName s =
     (case svc_getCommitsBetweenTags svc repositoryId oldTagName newTagName s of
        (Inl e, s1) \<Rightarrow> ([], s1)
      | (Inr commits, s1) \<Rightarrow>
          (case collectWorkItemIds svc repositoryId commits [] s1 of
             (Inl e, s2) \<Rightarrow> ([], s2)
           | (Inr workItemIds, s2) \<Rightarrow> fetchWorkItems svc workItemIds s2))"

text \<open>
  \<^verbatim>\<open>
  const oldTagName = repo.currentVersion && repo.currentVersion !== 'No releases'
    ? `${repo.currentVersion}` : null;
  \<close>
  and later \<^verbatim>\<open>if (oldTagName)\<close>: an empty string is falsy in both places.
\<close>

definition oldTagNameOf :: "Repository \<Rightarrow> string option" where
  "oldTagNameOf repo =
     (case currentVersion repo of
        None \<Rightarrow> None
      | Some v \<Rightarrow> if v \<noteq> [] \<and> v \<noteq> ''No releases'' then Some v else None)"

text \<open>\<^verbatim>\<open>error instanceof Error ? error.message : 'Unknown error'\<close>\<close>

fun errorMessage :: "thrown \<Rightarrow> string" where
  "errorMessage (Error message) = message"
| "errorMessage NonError = ''Unknown error''"

definition failureResult :: "Repository \<Rightarrow> thrown \<Rightarrow> ReleaseProcessingResult" where
  "failureResult repo e =
     \<lparr> repository = repo_name repo, success = False, newVersion = None,
       error = Some (errorMessage e), workItems = None \<rparr>"

definition successResult :: "Repository \<Rightarrow> string \<Rightarrow> WorkItem list \<Rightarrow> ReleaseProcessingResult" where
  "successResult repo version items =
     \<lparr> repository = repo_name repo, success = True, newVersion = Some version,
       error = None, workItems = Some items \<rparr>"

text \<open>
  One turn of the loop over the selected repositories. The state of the loop is the
  store, \<^verbatim>\<open>allWorkItems\<close> and the remote system.
  \<^verbatim>\<open>
  try {
    const newVersion = calculateNewVersion(repo.currentVersion, repo.bumpType!);
    const branchName = `refs/heads/release/${newVersion}.x`;
    const newTagName = `${newVersion}`;
    const oldTagName = ...;
    const mainCommitId = await service.getMainBranchCommit(repo.id);
    await service.createBranch(repo.id, branchName, 'refs/heads/main');
    await service.createTag(repo.id, newTagName, mainCommitId, `Release ${newVersion}`);
    const workItems: WorkItem[] = [];
    if (oldTagName) { try { ... } catch (err) { console.error(...); } }
    addProcessingResult({ repository: repo.name, success: true, newVersion, workItems });
  } catch (error) {
    addProcessingResult({ repository: repo.name, success: false,
      error: error instanceof Error ? error.message : 'Unknown error' });
  }
  \<close>
\<close>

definition processRepo ::
  "'s service \<Rightarrow> Repository \<Rightarrow> AppState \<times> WorkItem list \<times> 's \<Rightarrow> AppState \<times> WorkItem list \<times> 's" where
  "processRepo svc repo acc =
     (case acc of (st, allWorkItems, s) \<Rightarrow>
        (let version = calculateNewVersion (currentVersion repo) (bumpType repo);
             branchName = ''refs/heads/release/'' @ version @ ''.x'';
             newTagName = version
         in case svc_getMainBranchCommit svc (repo_id repo) s of
              (Inl e, s1) \<Rightarrow> (addProcessingResult (failureResult repo e) st, allWorkItems, s1)
            | (Inr mainCommitId, s1) \<Rightarrow>
                (case svc_createBranch svc (repo_id repo) branchName ''refs/heads/main'' s1 of
                   (Inl e, s2) \<Rightarrow> (addProcessingResult (failureResult repo e) st, allWorkItems, s2)
                 | (Inr created, s2) \<Rightarrow>
                     (case svc_createTag svc (repo_id repo) newTagName mainCommitId
                             (''Release '' @ version) s2 of
                        (Inl e, s3) \<Rightarrow>
                          (addProcessingResult (failureResult repo e) st, allWorkItems, s3)
                      | (Inr u, s3) \<Rightarrow>
                          (case (case oldTagNameOf repo of
                                   None \<Rightarrow> ([], s3)
                                 | Some oldTagName \<Rightarrow>
                                     harvestWorkItems svc (repo_id repo) oldTagName newTagName s3) of
                             (items, s4) \<Rightarrow>
                               (addProcessingResult (successResult repo version items) st,
                                allWorkItems @ items, s4))))))"

text \<open>
  \<^verbatim>\<open>
  const selectedRepos = repositories.filter((r) => r.selected);
  ...
  resetProcessing(); setIsProcessing(true);
  const allWorkItems: WorkItem[] = [];
  for (const repo of selectedRepos) { ... }
  const uniqueWorkItems = Array.from(
    new Map(allWorkItems.map((item) => [item.id, item])).values());
  setConsolidatedWorkItems(uniqueWorkItems);
  setIsProcessing(false);
  \<close>
\<close>

definition selectedRepos :: "AppState \<Rightarrow> Repository list" where
  "selectedRepos st = filter (\<lambda>r. selected r = Some True) (repositories st)"

definition uniqueWorkItems :: "WorkItem list \<Rightarrow> WorkItem list" where
  "uniqueWorkItems allWorkItems =
     Map_values (Map_new (map (\<lambda>item. (wi_id item, item)) allWorkItems))"

definition processLoop ::
  "'s service \<Rightarrow> Repository list \<Rightarrow> AppState \<times> WorkItem list \<times> 's \<Rightarrow> AppState \<times> WorkItem list \<times> 's" where
  "processLoop svc repos acc = foldl (\<lambda>a repo. processRepo svc repo a) acc repos"

definition processReleases :: "'s service \<Rightarrow> AppState \<Rightarrow> 's \<Rightarrow> AppState \<times> 's" where
  "processReleases svc st s =
     (case processLoop svc (selectedRepos st)
             (setIsProcessing True (resetProcessing st), [], s) of
        (st', allWorkItems, s') \<Rightarrow>
          (setIsProcessing False (setConsolidatedWorkItems (uniqueWorkItems allWorkItems) st'), s'))"

section \<open>The version order\<close>





section \<open>Observations on a run of the pipeline\<close>

text \<open>
  The error, if any, of the three stages that are fatal for a repository, run from the
  remote state \<open>s\<close>: resolving the source commit, creating the branch, creating the
  tag.
\<close>

definition fatalStage :: "'s service \<Rightarrow> Repository \<Rightarrow> 's \<Rightarrow> thrown option" where
  "fatalStage svc repo s =
     (let version = calculateNewVersion (currentVersion repo) (bumpType repo)
      in case svc_getMainBranchCommit svc (repo_id repo) s of
           (Inl e, s1) \<Rightarrow> Some e
         | (Inr mainCommitId, s1) \<Rightarrow>
             (case svc_createBranch svc (repo_id repo)
                     (''refs/heads/release/'' @ version @ ''.x'') ''refs/heads/main'' s1 of
                (Inl e, s2) \<Rightarrow> Some e
              | (Inr created, s2) \<Rightarrow>
                  (case svc_createTag svc (repo_id repo) version mainCommitId
                          (''Release '' @ version) s2 of
                     (Inl e, s3) \<Rightarrow> Some e
                   | (Inr u, s3) \<Rightarrow> None)))"

text \<open>The remote state in which the loop reaches the repository at position \<open>i\<close>.\<close>

definition stateBefore :: "'s service \<Rightarrow> AppState \<Rightarrow> 's \<Rightarrow> nat \<Rightarrow> 's" where
  "stateBefore svc st s i =
     snd (snd (processLoop svc (take i (selectedRepos st))
                 (setIsProcessing True (resetProcessing st), [], s)))"

text \<open>The work items a recorded result carries; a failure carries none.\<close>

definition resultItems :: "ReleaseProcessingResult \<Rightarrow> WorkItem list" where
  "resultItems result = (case workItems result of None \<Rightarrow> [] | Some items \<Rightarrow> items)"

text \<open>
  What the loop records for a repository it reaches in the remote state \<open>before\<close>: the
  failure with the message of the error of a fatal stage, or else a success with the
  new version.
\<close>

definition recordedFor ::
  "'s service \<Rightarrow> Repository \<Rightarrow> 's \<Rightarrow> ReleaseProcessingResult \<Rightarrow> bool" where
  "recordedFor svc repo before result =
     (case fatalStage svc repo before of
        Some e \<Rightarrow> result = failureResult repo e
      | None \<Rightarrow>
          result = successResult repo
                     (calculateNewVersion (currentVersion repo) (bumpType repo))
                     (resultItems result))"

text \<open>
  Two ways to deduplicate work items by identifier. Both keep one record for each
  identifier, the identifiers in the order of their first occurrence; they differ in
  the record kept for an identifier that occurs more than once: the first one seen
  (the specification's words), or the last one seen.
\<close>

definition firstOccurrences :: "'a list \<Rightarrow> 'a list" where
  "firstOccurrences xs = rev (remdups (rev xs))"

definition firstSeenWins :: "WorkItem list \<Rightarrow> WorkItem list" where
  "firstSeenWins items =
     List.map_filter (\<lambda>i. find (\<lambda>w. wi_id w = i) items)
       (firstOccurrences (map wi_id items))"

definition lastSeenWins :: "WorkItem list \<Rightarrow> WorkItem list" where
  "lastSeenWins items =
     List.map_filter (\<lambda>i. find (\<lambda>w. wi_id w = i) (rev items))
       (firstOccurrences (map wi_id items))"






section \<open>An example remote system\<close>

text \<open>
  A small remote system on which the theorems below are exercised. Its state counts
  the requests it has served. Every repository has three tags: \<open>0.9\<close> and \<open>1.0\<close> are
  lightweight (asking for their tag object fails), \<open>1.1\<close> is annotated and points at
  the commit \<open>c5\<close>. The history from \<open>c5\<close> is \<open>c5, c4, c3, c2, c1\<close>. The commit
  \<open>c5\<close> merges pull request 42, names the work items 100 and 200 in its message and
  carries an explicit link to work item 300; pull request 42 is linked to work item
  400. There is no work item 42. Work item 100 is resolved once twenty-five requests
  have been served. Creating a tag fails in the repository \<open>B\<close>.
\<close>

definition exampleCommit :: "string \<Rightarrow> string \<Rightarrow> GitCommit" where
  "exampleCommit cid msg =
     \<lparr> commitId = cid,
       author = \<lparr> author_name = ''dev'', author_email = ''dev@example.org'',
                  author_date = ''2024-01-01'' \<rparr>,
       comment = msg, commit_workItems = None \<rparr>"

definition mergeCommit :: GitCommit where
  "mergeCommit =
     (exampleCommit ''c5'' ''Merged PR 42: fixes AB#100 and #200'')
       \<lparr> commit_workItems := Some [\<lparr>wir_id = ''300'', wir_url = ''wi/300''\<rparr>] \<rparr>"

definition exampleHistory :: "GitCommit list" where
  "exampleHistory =
     [mergeCommit, exampleCommit ''c4'' ''four'', exampleCommit ''c3'' ''three'',
      exampleCommit ''c2'' ''two'', exampleCommit ''c1'' ''one'']"

definition exampleWorkItem :: "int \<Rightarrow> string \<Rightarrow> string \<Rightarrow> WorkItem" where
  "exampleWorkItem n title st =
     \<lparr> wi_id = n,
       wi_fields = \<lparr> System_WorkItemType = ''Bug'', System_Title = title,
                     System_State = Some st, Custom_IntegrationBuild = None \<rparr>,
       wi_url = ''wi'' \<rparr>"

definition exampleWorkItems :: "string \<Rightarrow> nat \<Rightarrow> thrown + WorkItem" where
  "exampleWorkItems wid n =
     (if wid = ''100'' then
        Inr (exampleWorkItem 100 ''Login fails'' (if n < 25 then ''Active'' else ''Resolved''))
      else if wid = ''200'' then Inr (exampleWorkItem 200 ''Export is slow'' ''Active'')
      else if wid = ''300'' then Inr (exampleWorkItem 300 ''Typo in footer'' ''Closed'')
      else if wid = ''400'' then Inr (exampleWorkItem 400 ''Crash on start'' ''Active'')
      else Inl (Error ''API Error: 404 - no such work item''))"

definition exampleRefs :: "string \<Rightarrow> GitRef list" where
  "exampleRefs flt =
     (if flt = ''tags'' then
        [\<lparr>ref_name = ''refs/tags/0.9'', objectId = ''c0''\<rparr>,
         \<lparr>ref_name = ''refs/tags/1.0'', objectId = ''c2''\<rparr>,
         \<lparr>ref_name = ''refs/tags/1.1'', objectId = ''t11''\<rparr>]
      else if flt = ''heads/release'' then
        [\<lparr>ref_name = ''refs/heads/release/1.2.x'', objectId = ''c2''\<rparr>,
         \<lparr>ref_name = ''refs/heads/release/1.10.x'', objectId = ''c5''\<rparr>,
         \<lparr>ref_name = ''refs/heads/release/next'', objectId = ''c4''\<rparr>,
         \<lparr>ref_name = ''refs/heads/release/0.9.x'', objectId = ''c0''\<rparr>]
      else [\<lparr>ref_name = ''refs/heads/main'', objectId = ''c5''\<rparr>])"

definition exampleRemote :: "nat remote" where
  "exampleRemote =
     \<lparr> GET_refs = (\<lambda>repo flt n. (Inr (exampleRefs flt), Suc n)),
       POST_refs = (\<lambda>repo nm oid n. (Inr [\<lparr>ref_name = nm, objectId = oid\<rparr>], Suc n)),
       POST_annotatedtags = (\<lambda>repo nm oid msg n.
         (if repo = ''B'' then Inl (Error ''API Error: 409 - tag exists'') else Inr (), Suc n)),
       GET_annotatedtag = (\<lambda>repo oid n.
         (if oid = ''t11'' then Inr \<lparr>taggedObject_objectId = ''c5''\<rparr>
          else Inl (Error ''API Error: 404 - no such tag object''), Suc n)),
       GET_commits_compare = (\<lambda>repo item base n. (Inr [], Suc n)),
       GET_commits_from = (\<lambda>repo cid n.
         (if cid = ''c5'' then Inr exampleHistory
          else Inl (Error ''API Error: 404 - no such commit''), Suc n)),
       GET_commit_workitems = (\<lambda>repo cid n. (Inr [], Suc n)),
       GET_pullrequest_workitems = (\<lambda>repo pr n.
         (Inr (if pr = ''42'' then [''400''] else []), Suc n)),
       GET_workitem = (\<lambda>wid n. (exampleWorkItems wid n, Suc n)) \<rparr>"

definition exampleRepository :: "string \<Rightarrow> string \<Rightarrow> BumpType \<Rightarrow> Repository" where
  "exampleRepository nm version bump =
     \<lparr> repo_id = nm, repo_name = nm, currentVersion = Some version,
       selected = Some True, bumpType = Some bump \<rparr>"

definition exampleStore :: "Repository list \<Rightarrow> AppState" where
  "exampleStore repos =
     \<lparr> repositories = repos, isProcessing = False, processingResults = [],
       consolidatedWorkItems = [] \<rparr>"

text \<open>
  A batch of three repositories at version \<open>1.0\<close>, each to receive a minor bump, run
  against the service over the example remote system.
\<close>

definition exampleBatch :: AppState where
  "exampleBatch =
     exampleStore [exampleRepository ''A'' ''1.0'' Minor, exampleRepository ''B'' ''1.0'' Minor,
                   exampleRepository ''C'' ''1.0'' Minor]"

definition exampleService :: "nat service" where
  "exampleService = AzureDevOpsService exampleRemote"

section \<open>Properties of the version bump\<close>

lemma decimalString_small: "n < 10 \<Longrightarrow> decimalString n = [digitChar n]"
  by (subst decimalString.simps) simp

lemma lt10:
  "(d::nat) < 10 \<Longrightarrow>
   d = 0 \<or> d = 1 \<or> d = 2 \<or> d = 3 \<or> d = 4 \<or> d = 5 \<or> d = 6 \<or> d = 7 \<or> d = 8 \<or> d = 9"
  by (simp add: numeral_eq_Suc less_Suc_eq)

lemma digitValue_digitChar:
  assumes "d < 10"
  shows "digitValue (digitChar d) = d"
  using lt10[OF assms] by (elim disjE) (simp_all add: digitValue_def digitChar_def)

lemma isDigit_digitChar:
  assumes "d < 10"
  shows "isDigit (digitChar d)"
  using lt10[OF assms] by (elim disjE) (simp_all add: isDigit_def digitChar_def)

lemma decimalValue_snoc: "decimalValue (ds @ [c]) = 10 * decimalValue ds + digitValue c"
  by (simp add: decimalValue_def)

lemma decimalValue_decimalString: "decimalValue (decimalString n) = n"
proof (induction n rule: decimalString.induct)
  case (1 n)
  show ?case
  proof (cases "n < 10")
    case True
    then show ?thesis by (simp add: decimalString_small decimalValue_def digitValue_digitChar)
  next
    case False
    with 1 show ?thesis
      by (subst decimalString.simps) (simp add: decimalValue_snoc digitValue_digitChar)
  qed
qed

lemma decimalString_digits: "list_all isDigit (decimalString n)"
proof (induction n rule: decimalString.induct)
  case (1 n)
  then show ?case
    by (subst decimalString.simps) (simp add: isDigit_digitChar)
qed

lemma decimalString_nonempty: "decimalString n \<noteq> []"
  by (subst decimalString.simps) simp

lemma Number_js_decimalString: "Number_js (decimalString n) = Fin n"
  by (simp add: Number_js_def decimalString_nonempty decimalString_digits decimalValue_decimalString)







section \<open>Properties of the service\<close>

lemma findIndex_None: "findIndex p xs = None \<longleftrightarrow> (\<forall>x \<in> set xs. \<not> p x)"
  by (induction xs) auto

lemma findIndex_Some:
  "findIndex p xs = Some i \<longleftrightarrow> i < length xs \<and> p (xs ! i) \<and> (\<forall>j < i. \<not> p (xs ! j))"
proof (induction xs arbitrary: i)
  case Nil
  then show ?case by simp
next
  case (Cons x xs)
  show ?case
  proof (cases "p x")
    case True
    then show ?thesis
      by (cases i) auto
  next
    case False
    show ?thesis
    proof (cases i)
      case 0
      with False show ?thesis by auto
    next
      case (Suc k)
      have "(\<forall>j < Suc k. \<not> p ((x # xs) ! j)) \<longleftrightarrow> (\<forall>j < k. \<not> p (xs ! j))"
        using False by (auto simp: less_Suc_eq_0_disj)
      with False Suc Cons.IH[of k] show ?thesis by auto
    qed
  qed
qed

lemma filteredCommits_found:
  assumes "i < length fetched" "commitId (fetched ! i) = old"
    and "\<forall>j < i. commitId (fetched ! j) \<noteq> old"
  shows "filteredCommits old fetched = take i fetched"
proof -
  have "findIndex (\<lambda>c. commitId c = old) fetched = Some i"
    using assms by (simp add: findIndex_Some)
  then show ?thesis by (simp add: filteredCommits_def)
qed

lemma filteredCommits_absent:
  assumes "\<forall>c \<in> set fetched. commitId c \<noteq> old"
  shows "filteredCommits old fetched = fetched"
proof -
  have "findIndex (\<lambda>c. commitId c = old) fetched = None"
    using assms by (simp add: findIndex_None)
  then show ?thesis by (simp add: filteredCommits_def)
qed

lemma retryLoop_map:
  "retryLoop k le (\<lambda>s. case fn s of (Inl e, s') \<Rightarrow> (Inl e, s') | (Inr v, s') \<Rightarrow> (Inr (f v), s')) s
   = (case retryLoop k le fn s of (Inl e, s') \<Rightarrow> (Inl e, s') | (Inr v, s') \<Rightarrow> (Inr (f v), s'))"
proof (induction k arbitrary: le s)
  case 0
  then show ?case by simp
next
  case (Suc k)
  show ?case
  proof (cases "fn s")
    case (Pair res s')
    then show ?thesis
      using Suc.IH by (cases res) simp_all
  qed
qed

lemma retryAsync_map:
  "retryAsync (\<lambda>s. case fn s of (Inl e, s') \<Rightarrow> (Inl e, s') | (Inr v, s') \<Rightarrow> (Inr (f v), s')) s
   = (case retryAsync fn s of (Inl e, s') \<Rightarrow> (Inl e, s') | (Inr v, s') \<Rightarrow> (Inr (f v), s'))"
  unfolding retryAsync_def by (rule retryLoop_map)

text \<open>
  C3. The tag-to-tag range. When the tags are listed, both tags are found and the
  commit list from the new tag's commit is fetched, the result is the fetched list cut
  at the old tag's commit: if that commit stands at position \<open>i\<close> (its first
  position), the result is the \<open>i\<close> commits before it, the old commit itself left
  out; if it stands nowhere in the list, the result is the whole fetched list.
\<close>

theorem getCommitsBetweenTags_range:
  assumes tags: "getRepositoryTags r repo s = (Inr tags, s1)"
    and old: "find (\<lambda>t. ref_name t = ''refs/tags/'' @ oldTag) tags = Some oldTagRef"
    and new: "find (\<lambda>t. ref_name t = ''refs/tags/'' @ newTag) tags = Some newTagRef"
    and oldc: "resolveTagCommitId r repo oldTagRef oldTag s1 = (oldCommitId, s2)"
    and newc: "resolveTagCommitId r repo newTagRef newTag s2 = (newCommitId, s3)"
    and fetch: "retryAsync (GET_commits_from r repo newCommitId) s3 = (Inr fetched, s4)"
  shows "getCommitsBetweenTags r repo oldTag newTag s
           = (Inr (filteredCommits oldCommitId fetched), s4)
     \<and> (\<forall>i. i < length fetched \<and> commitId (fetched ! i) = oldCommitId
              \<and> (\<forall>j < i. commitId (fetched ! j) \<noteq> oldCommitId)
            \<longrightarrow> filteredCommits oldCommitId fetched = take i fetched)
     \<and> ((\<forall>c \<in> set fetched. commitId c \<noteq> oldCommitId)
            \<longrightarrow> filteredCommits oldCommitId fetched = fetched)"
proof -
  have "getCommitsBetweenTags r repo oldTag newTag s
          = retryAsync (\<lambda>s. case GET_commits_from r repo newCommitId s of
                             (Inl e, s') \<Rightarrow> (Inl e, s')
                           | (Inr fetched, s') \<Rightarrow> (Inr (filteredCommits oldCommitId fetched), s')) s3"
    using tags old new oldc newc by (simp add: getCommitsBetweenTags_def)
  also have "\<dots> = (case retryAsync (GET_commits_from r repo newCommitId) s3 of
                       (Inl e, s') \<Rightarrow> (Inl e, s')
                     | (Inr v, s') \<Rightarrow> (Inr (filteredCommits oldCommitId v), s'))"
    by (rule retryAsync_map)
  also have "\<dots> = (Inr (filteredCommits oldCommitId fetched), s4)"
    by (simp add: fetch)
  finally have "getCommitsBetweenTags r repo oldTag newTag s
          = (Inr (filteredCommits oldCommitId fetched), s4)" .
  moreover have "\<forall>i. i < length fetched \<and> commitId (fetched ! i) = oldCommitId
              \<and> (\<forall>j < i. commitId (fetched ! j) \<noteq> oldCommitId)
            \<longrightarrow> filteredCommits oldCommitId fetched = take i fetched"
    by (simp add: filteredCommits_found)
  moreover have "(\<forall>c \<in> set fetched. commitId c \<noteq> oldCommitId)
            \<longrightarrow> filteredCommits oldCommitId fetched = fetched"
    by (simp add: filteredCommits_absent)
  ultimately show ?thesis by simp
qed

theorem getCommitsBetweenTags_range_witness:
  "getCommitsBetweenTags exampleRemote ''R'' ''1.0'' ''1.1'' 0 = (Inr (take 3 exampleHistory), 6)
   \<and> getCommitsBetweenTags exampleRemote ''R'' ''0.9'' ''1.1'' 0 = (Inr exampleHistory, 6)"
proof -
  let ?t10 = "\<lparr>ref_name = ''refs/tags/1.0'', objectId = ''c2''\<rparr>"
  let ?t09 = "\<lparr>ref_name = ''refs/tags/0.9'', objectId = ''c0''\<rparr>"
  let ?t11 = "\<lparr>ref_name = ''refs/tags/1.1'', objectId = ''t11''\<rparr>"
  have tags: "getRepositoryTags exampleRemote ''R'' 0 = (Inr (exampleRefs ''tags''), 1)"
    by code_simp
  have f10: "find (\<lambda>t. ref_name t = ''refs/tags/'' @ ''1.0'') (exampleRefs ''tags'') = Some ?t10"
    and f09: "find (\<lambda>t. ref_name t = ''refs/tags/'' @ ''0.9'') (exampleRefs ''tags'') = Some ?t09"
    and f11: "find (\<lambda>t. ref_name t = ''refs/tags/'' @ ''1.1'') (exampleRefs ''tags'') = Some ?t11"
    by code_simp+
  have r10: "resolveTagCommitId exampleRemote ''R'' ?t10 ''1.0'' 1 = (''c2'', 4)"
    and r09: "resolveTagCommitId exampleRemote ''R'' ?t09 ''0.9'' 1 = (''c0'', 4)"
    and r11: "resolveTagCommitId exampleRemote ''R'' ?t11 ''1.1'' 4 = (''c5'', 5)"
    by code_simp+
  have fetch: "retryAsync (GET_commits_from exampleRemote ''R'' ''c5'') 5 = (Inr exampleHistory, 6)"
    by code_simp
  have pos: "3 < length exampleHistory \<and> commitId (exampleHistory ! 3) = ''c2''
             \<and> (\<forall>j < 3. commitId (exampleHistory ! j) \<noteq> ''c2'')"
    by (simp add: exampleHistory_def mergeCommit_def exampleCommit_def numeral_3_eq_3 All_less_Suc)
  have absent: "\<forall>c \<in> set exampleHistory. commitId c \<noteq> ''c0''"
    by (simp add: exampleHistory_def mergeCommit_def exampleCommit_def)
  note t10 = getCommitsBetweenTags_range[OF tags f10 f11 r10 r11 fetch]
  note t09 = getCommitsBetweenTags_range[OF tags f09 f11 r09 r11 fetch]
  have "filteredCommits ''c2'' exampleHistory = take 3 exampleHistory"
    using t10[THEN conjunct2, THEN conjunct1, THEN spec, of 3] pos by simp
  with t10 have a:
    "getCommitsBetweenTags exampleRemote ''R'' ''1.0'' ''1.1'' 0 = (Inr (take 3 exampleHistory), 6)"
    by simp
  have "filteredCommits ''c0'' exampleHistory = exampleHistory"
    using t09[THEN conjunct2, THEN conjunct2] absent by simp
  with t09 have b:
    "getCommitsBetweenTags exampleRemote ''R'' ''0.9'' ''1.1'' 0 = (Inr exampleHistory, 6)"
    by simp
  from a b show ?thesis by simp
qed

lemma retryAsync_attempts:
  "retryAsync fn s =
     (case fn s of
        (Inr v, s1) \<Rightarrow> (Inr v, s1)
      | (Inl e1, s1) \<Rightarrow>
          (case fn s1 of
             (Inr v, s2) \<Rightarrow> (Inr v, s2)
           | (Inl e2, s2) \<Rightarrow>
               (case fn s2 of
                  (Inr v, s3) \<Rightarrow> (Inr v, s3)
                | (Inl e3, s3) \<Rightarrow> (Inl e3, s3))))"
  by (simp add: retryAsync_def numeral_3_eq_3 split: prod.splits sum.splits)

text \<open>
  C7. Dereferencing a tag cannot raise: its result is a commit identifier and a state,
  on every answer of the remote system. If the tag object is fetched, the result is
  the object's target; if the fetch throws, whatever it throws, the result is the tag
  ref's own object identifier. In terms of the requests: the fallback is taken when
  all three attempts at the tag object fail.
\<close>

theorem resolveTagCommitId_fallback:
  "(\<forall>tagObject s'. getTagObject r repo (objectId tagRef) s = (Inr tagObject, s')
       \<longrightarrow> resolveTagCommitId r repo tagRef tagName s = (taggedObject_objectId tagObject, s'))
   \<and> (\<forall>e s'. getTagObject r repo (objectId tagRef) s = (Inl e, s')
       \<longrightarrow> resolveTagCommitId r repo tagRef tagName s = (objectId tagRef, s'))
   \<and> (\<forall>e1 s1 e2 s2 e3 s3.
         GET_annotatedtag r repo (objectId tagRef) s = (Inl e1, s1)
         \<and> GET_annotatedtag r repo (objectId tagRef) s1 = (Inl e2, s2)
         \<and> GET_annotatedtag r repo (objectId tagRef) s2 = (Inl e3, s3)
       \<longrightarrow> resolveTagCommitId r repo tagRef tagName s = (objectId tagRef, s3))"
  by (simp add: resolveTagCommitId_def getTagObject_def retryAsync_attempts)

theorem resolveTagCommitId_fallback_witness:
  "resolveTagCommitId exampleRemote ''R'' \<lparr>ref_name = ''refs/tags/1.1'', objectId = ''t11''\<rparr> ''1.1'' 0
     = (''c5'', 1)
   \<and> resolveTagCommitId exampleRemote ''R'' \<lparr>ref_name = ''refs/tags/1.0'', objectId = ''c2''\<rparr> ''1.0'' 0
     = (''c2'', 3)"
proof -
  let ?t11 = "\<lparr>ref_name = ''refs/tags/1.1'', objectId = ''t11''\<rparr>"
  let ?t10 = "\<lparr>ref_name = ''refs/tags/1.0'', objectId = ''c2''\<rparr>"
  have ok: "getTagObject exampleRemote ''R'' (objectId ?t11) 0
              = (Inr \<lparr>taggedObject_objectId = ''c5''\<rparr>, 1)"
    by code_simp
  have ko: "getTagObject exampleRemote ''R'' (objectId ?t10) 0
              = (Inl (Error ''API Error: 404 - no such tag object''), 3)"
    by code_simp
  from resolveTagCommitId_fallback[of exampleRemote "''R''" ?t11 0 "''1.1''"] ok
  have a: "resolveTagCommitId exampleRemote ''R'' ?t11 ''1.1'' 0 = (''c5'', 1)"
    by simp
  from resolveTagCommitId_fallback[of exampleRemote "''R''" ?t10 0 "''1.0''"] ko
  have b: "resolveTagCommitId exampleRemote ''R'' ?t10 ''1.0'' 0 = (''c2'', 3)"
    by simp
  from a b show ?thesis by simp
qed






















section \<open>Properties of the release pipeline\<close>

lemma processRepo_step:
  assumes "processRepo svc repo (st, allItems, s) = (st', allItems', s')"
  shows "\<exists>res. st' = addProcessingResult res st \<and> allItems' = allItems @ resultItems res
           \<and> recordedFor svc repo s res"
  using assms
  unfolding processRepo_def fatalStage_def recordedFor_def Let_def
  by (auto split: prod.splits sum.splits option.splits
           simp: resultItems_def failureResult_def successResult_def)

lemma processLoop_snoc:
  "processLoop svc (repos @ [r]) acc = processRepo svc r (processLoop svc repos acc)"
  by (simp add: processLoop_def)

lemma processLoop_Nil: "processLoop svc [] acc = acc"
  by (simp add: processLoop_def)

lemma processLoop_results:
  "\<exists>rs. fst (processLoop svc repos (st, allItems, s))
            = st\<lparr>processingResults := processingResults st @ rs\<rparr>
        \<and> fst (snd (processLoop svc repos (st, allItems, s)))
            = allItems @ concat (map resultItems rs)
        \<and> length rs = length repos
        \<and> (\<forall>i < length repos.
              recordedFor svc (repos ! i)
                (snd (snd (processLoop svc (take i repos) (st, allItems, s)))) (rs ! i))"
proof (induction repos rule: rev_induct)
  case Nil
  show ?case by (simp add: processLoop_Nil)
next
  case (snoc r repos)
  then obtain rs where rs:
    "fst (processLoop svc repos (st, allItems, s))
       = st\<lparr>processingResults := processingResults st @ rs\<rparr>"
    "fst (snd (processLoop svc repos (st, allItems, s))) = allItems @ concat (map resultItems rs)"
    "length rs = length repos"
    "\<forall>i < length repos.
        recordedFor svc (repos ! i)
          (snd (snd (processLoop svc (take i repos) (st, allItems, s)))) (rs ! i)"
    by blast
  obtain st1 all1 s1 where mid: "processLoop svc repos (st, allItems, s) = (st1, all1, s1)"
    by (cases "processLoop svc repos (st, allItems, s)") auto
  obtain st2 all2 s2 where step: "processRepo svc r (st1, all1, s1) = (st2, all2, s2)"
    by (cases "processRepo svc r (st1, all1, s1)") auto
  from processRepo_step[OF step] obtain res where res:
    "st2 = addProcessingResult res st1" "all2 = all1 @ resultItems res"
    "recordedFor svc r s1 res"
    by blast
  have out: "processLoop svc (repos @ [r]) (st, allItems, s) = (st2, all2, s2)"
    by (simp add: processLoop_snoc mid step)
  have a: "fst (processLoop svc (repos @ [r]) (st, allItems, s))
             = st\<lparr>processingResults := processingResults st @ (rs @ [res])\<rparr>"
    using out res(1) rs(1) mid by (simp add: addProcessingResult_def)
  have b: "fst (snd (processLoop svc (repos @ [r]) (st, allItems, s)))
             = allItems @ concat (map resultItems (rs @ [res]))"
    using out res(2) rs(2) mid by simp
  have c: "length (rs @ [res]) = length (repos @ [r])"
    using rs(3) by simp
  have d: "\<forall>i < length (repos @ [r]).
              recordedFor svc ((repos @ [r]) ! i)
                (snd (snd (processLoop svc (take i (repos @ [r])) (st, allItems, s))))
                ((rs @ [res]) ! i)"
  proof (intro allI impI)
    fix i assume i: "i < length (repos @ [r])"
    show "recordedFor svc ((repos @ [r]) ! i)
                (snd (snd (processLoop svc (take i (repos @ [r])) (st, allItems, s))))
                ((rs @ [res]) ! i)"
    proof (cases "i < length repos")
      case True
      then show ?thesis
        using rs(3) rs(4) by (simp add: nth_append)
    next
      case False
      with i have "i = length repos" by simp
      then show ?thesis
        using res(3) rs(3) mid by (simp add: nth_append)
    qed
  qed
  from a b c d show ?case by blast
qed


text \<open>What \<open>processReleases\<close> leaves in the store, in terms of the loop.\<close>

lemma processReleases_loop:
  obtains rs where
    "processingResults (fst (processReleases svc st s)) = rs"
    "consolidatedWorkItems (fst (processReleases svc st s))
       = uniqueWorkItems (concat (map resultItems rs))"
    "length rs = length (selectedRepos st)"
    "\<forall>i < length (selectedRepos st).
        recordedFor svc (selectedRepos st ! i) (stateBefore svc st s i) (rs ! i)"
proof -
  let ?acc = "(setIsProcessing True (resetProcessing st), [] :: WorkItem list, s)"
  from processLoop_results[of svc "selectedRepos st" "setIsProcessing True (resetProcessing st)" "[]" s]
  obtain rs where rs:
    "fst (processLoop svc (selectedRepos st) ?acc)
       = (setIsProcessing True (resetProcessing st))
           \<lparr>processingResults := processingResults (setIsProcessing True (resetProcessing st)) @ rs\<rparr>"
    "fst (snd (processLoop svc (selectedRepos st) ?acc)) = [] @ concat (map resultItems rs)"
    "length rs = length (selectedRepos st)"
    "\<forall>i < length (selectedRepos st).
        recordedFor svc (selectedRepos st ! i)
          (snd (snd (processLoop svc (take i (selectedRepos st)) ?acc))) (rs ! i)"
    by blast
  obtain st1 all1 s1 where out: "processLoop svc (selectedRepos st) ?acc = (st1, all1, s1)"
    by (cases "processLoop svc (selectedRepos st) ?acc") auto
  have "processingResults (fst (processReleases svc st s)) = rs"
    using rs(1) out
    by (simp add: processReleases_def setIsProcessing_def setConsolidatedWorkItems_def
        resetProcessing_def)
  moreover have "consolidatedWorkItems (fst (processReleases svc st s))
       = uniqueWorkItems (concat (map resultItems rs))"
    using rs(2) out
    by (simp add: processReleases_def setIsProcessing_def setConsolidatedWorkItems_def)
  moreover have "\<forall>i < length (selectedRepos st).
        recordedFor svc (selectedRepos st ! i) (stateBefore svc st s i) (rs ! i)"
    using rs(4) by (simp add: stateBefore_def)
  ultimately show ?thesis
    using rs(3) that by blast
qed


lemma keys_Map_set:
  "map fst (Map_set k v m) = (if k \<in> set (map fst m) then map fst m else map fst m @ [k])"
  by (induction m) force+

lemma map_of_Map_set: "map_of (Map_set k v m) = (map_of m)(k \<mapsto> v)"
  by (induction m) (auto simp: fun_eq_iff)

lemma Map_new_snoc: "Map_new (es @ [(k, v)]) = Map_set k v (Map_new es)"
  by (simp add: Map_new_def)

lemma firstOccurrences_snoc:
  "firstOccurrences (xs @ [x]) = (if x \<in> set xs then firstOccurrences xs else firstOccurrences xs @ [x])"
  by (simp add: firstOccurrences_def)

lemma set_firstOccurrences: "set (firstOccurrences xs) = set xs"
  by (simp add: firstOccurrences_def)

lemma distinct_firstOccurrences: "distinct (firstOccurrences xs)"
  by (simp add: firstOccurrences_def)

lemma keys_Map_new: "map fst (Map_new es) = firstOccurrences (map fst es)"
proof (induction es rule: rev_induct)
  case Nil
  show ?case by (simp add: Map_new_def firstOccurrences_def)
next
  case (snoc e es)
  obtain k v where e: "e = (k, v)" by (cases e)
  have "set (map fst (Map_new es)) = set (map fst es)"
    using snoc by (simp add: set_firstOccurrences)
  then have "k \<in> set (map fst (Map_new es)) \<longleftrightarrow> k \<in> set (map fst es)" by simp
  then show ?case
    using snoc unfolding e
    by (simp only: Map_new_snoc keys_Map_set firstOccurrences_snoc map_append list.map fst_conv
        split: if_splits)
qed

lemma map_of_Map_new: "map_of (Map_new es) = map_of (rev es)"
proof (induction es rule: rev_induct)
  case Nil
  show ?case by (simp add: Map_new_def)
next
  case (snoc e es)
  obtain k v where e: "e = (k, v)" by (cases e)
  show ?case
    using snoc unfolding e by (simp add: Map_new_snoc map_of_Map_set)
qed

lemma map_filter_agree:
  "(\<And>x. x \<in> set xs \<Longrightarrow> f x = g x) \<Longrightarrow> List.map_filter f xs = List.map_filter g xs"
  by (induction xs) (auto simp: List.map_filter_simps split: option.splits)

lemma values_by_keys:
  "distinct (map fst m) \<Longrightarrow> map snd m = List.map_filter (map_of m) (map fst m)"
proof (induction m)
  case Nil
  show ?case by (simp add: List.map_filter_simps)
next
  case (Cons p m)
  obtain k v where p: "p = (k, v)" by (cases p)
  from Cons.prems have k: "k \<notin> fst ` set m" and d: "distinct (map fst m)"
    by (simp_all add: p)
  have "List.map_filter (\<lambda>a. if a = k then Some v else map_of m a) (map fst m)
          = List.map_filter (map_of m) (map fst m)"
    using k by (intro map_filter_agree) auto
  with Cons.IH[OF d] show ?case
    by (simp add: p List.map_filter_simps fun_upd_def)
qed

lemma map_of_tagged: "map_of (map (\<lambda>w. (f w, w)) xs) i = find (\<lambda>w. f w = i) xs"
  by (induction xs) auto

lemma uniqueWorkItems_lastSeenWins: "uniqueWorkItems items = lastSeenWins items"
proof -
  let ?es = "map (\<lambda>item. (wi_id item, item)) items"
  have keys: "map fst (Map_new ?es) = firstOccurrences (map wi_id items)"
    by (simp add: keys_Map_new comp_def)
  then have "distinct (map fst (Map_new ?es))"
    by (simp add: distinct_firstOccurrences)
  then have "map snd (Map_new ?es) = List.map_filter (map_of (Map_new ?es)) (map fst (Map_new ?es))"
    by (rule values_by_keys)
  also have "\<dots> = List.map_filter (map_of (rev ?es)) (firstOccurrences (map wi_id items))"
    by (simp only: keys map_of_Map_new)
  also have "map_of (rev ?es) = (\<lambda>i. find (\<lambda>w. wi_id w = i) (rev items))"
    by (simp add: fun_eq_iff rev_map map_of_tagged)
  finally show ?thesis
    by (simp add: uniqueWorkItems_def Map_values_def lastSeenWins_def)
qed

lemma set_Map_set: "set (Map_set k v m) \<subseteq> insert (k, v) (set m)"
  by (induction m) (auto split: if_splits)

lemma set_Map_new: "set (Map_new es) \<subseteq> set es"
proof (induction es rule: rev_induct)
  case Nil
  show ?case by (simp add: Map_new_def)
next
  case (snoc e es)
  obtain k v where e: "e = (k, v)" by (cases e)
  show ?case
    using snoc set_Map_set[of k v "Map_new es"] unfolding e Map_new_snoc by auto
qed

lemma wi_id_uniqueWorkItems:
  "map wi_id (uniqueWorkItems items) = firstOccurrences (map wi_id items)"
proof -
  let ?es = "map (\<lambda>item. (wi_id item, item)) items"
  have "\<forall>p \<in> set (Map_new ?es). wi_id (snd p) = fst p"
    using set_Map_new[of ?es] by auto
  then have "map (wi_id \<circ> snd) (Map_new ?es) = map fst (Map_new ?es)"
    by (intro map_cong) auto
  then show ?thesis
    by (simp add: uniqueWorkItems_def Map_values_def keys_Map_new comp_def)
qed


lemma recordedFor_success:
  assumes "recordedFor svc repo before res" "fatalStage svc repo before = None"
  shows "success res \<and> error res = None
         \<and> newVersion res = Some (calculateNewVersion (currentVersion repo) (bumpType repo))"
proof -
  let ?ok = "successResult repo
      (calculateNewVersion (currentVersion repo) (bumpType repo)) (resultItems res)"
  from assms have eq: "res = ?ok"
    by (simp add: recordedFor_def)
  have "success res = success ?ok" "error res = error ?ok" "newVersion res = newVersion ?ok"
    using eq by (rule arg_cong)+
  then show ?thesis by (simp add: successResult_def)
qed

lemma recordedFor_items:
  assumes "recordedFor svc repo before res" "\<not> success res"
  shows "resultItems res = []"
proof (cases "fatalStage svc repo before")
  case None
  from recordedFor_success[OF assms(1) None] assms(2) show ?thesis by simp
next
  case (Some e)
  with assms(1) show ?thesis
    by (simp add: recordedFor_def failureResult_def resultItems_def)
qed

lemma concat_filter_success:
  "\<forall>r \<in> set rs. \<not> success r \<longrightarrow> resultItems r = []
     \<Longrightarrow> concat (map resultItems (filter success rs)) = concat (map resultItems rs)"
  by (induction rs) auto

lemma processReleases_items_of_successes:
  "concat (map resultItems (filter success (processingResults (fst (processReleases svc st s)))))
     = concat (map resultItems (processingResults (fst (processReleases svc st s))))"
proof -
  obtain rs where rs:
    "processingResults (fst (processReleases svc st s)) = rs"
    "length rs = length (selectedRepos st)"
    "\<forall>i < length (selectedRepos st).
        recordedFor svc (selectedRepos st ! i) (stateBefore svc st s i) (rs ! i)"
    by (rule processReleases_loop)
  have "\<forall>r \<in> set rs. \<not> success r \<longrightarrow> resultItems r = []"
  proof (intro ballI impI)
    fix r assume "r \<in> set rs" and ns: "\<not> success r"
    then obtain i where i: "i < length rs" "rs ! i = r"
      by (auto simp: in_set_conv_nth)
    with rs have "recordedFor svc (selectedRepos st ! i) (stateBefore svc st s i) r"
      by auto
    then show "resultItems r = []" using ns by (rule recordedFor_items)
  qed
  then show ?thesis
    unfolding rs(1) by (rule concat_filter_success)
qed

text \<open>
  C1, as the code has it. The consolidated work items are the work items of the
  successful repositories, in processing order, deduplicated by identifier: one record
  for each identifier, the identifiers in the order of their first occurrence, and for
  an identifier that more than one repository resolved the record of the repository
  processed last.
\<close>

theorem consolidated_last_seen_wins:
  "consolidatedWorkItems (fst (processReleases svc st s))
     = lastSeenWins (concat (map resultItems
         (filter success (processingResults (fst (processReleases svc st s))))))
   \<and> map wi_id (consolidatedWorkItems (fst (processReleases svc st s)))
     = firstOccurrences (map wi_id (concat (map resultItems
         (filter success (processingResults (fst (processReleases svc st s)))))))"
proof -
  obtain rs where rs:
    "processingResults (fst (processReleases svc st s)) = rs"
    "consolidatedWorkItems (fst (processReleases svc st s))
       = uniqueWorkItems (concat (map resultItems rs))"
    by (rule processReleases_loop)
  have "concat (map resultItems (filter success rs)) = concat (map resultItems rs)"
    using processReleases_items_of_successes[of svc st s] by (simp add: rs(1))
  then show ?thesis
    by (simp add: rs uniqueWorkItems_lastSeenWins[symmetric] wi_id_uniqueWorkItems)
qed

text \<open>
  The claim as the specification words it, first seen wins, fails on the example
  batch: the repositories \<open>A\<close> and \<open>C\<close> both resolve work item 100, \<open>A\<close> while it is
  active and \<open>C\<close> after it was resolved, and the consolidated list holds the record
  that \<open>C\<close> fetched.
\<close>

theorem consolidated_first_seen_counterexample:
  "consolidatedWorkItems (fst (processReleases exampleService exampleBatch 0))
     \<noteq> firstSeenWins (concat (map resultItems
          (filter success (processingResults (fst (processReleases exampleService exampleBatch 0))))))
   \<and> find (\<lambda>w. wi_id w = 100)
         (resultItems (processingResults (fst (processReleases exampleService exampleBatch 0)) ! 0))
       = Some (exampleWorkItem 100 ''Login fails'' ''Active'')
   \<and> find (\<lambda>w. wi_id w = 100)
         (resultItems (processingResults (fst (processReleases exampleService exampleBatch 0)) ! 2))
       = Some (exampleWorkItem 100 ''Login fails'' ''Resolved'')
   \<and> find (\<lambda>w. wi_id w = 100)
         (consolidatedWorkItems (fst (processReleases exampleService exampleBatch 0)))
       = Some (exampleWorkItem 100 ''Login fails'' ''Resolved'')"
  by code_simp


lemma fetchWorkItems_append:
  "fetchWorkItems svc (xs @ ys) s =
     (case fetchWorkItems svc xs s of
        (items1, s1) \<Rightarrow>
          (case fetchWorkItems svc ys s1 of (items2, s2) \<Rightarrow> (items1 @ items2, s2)))"
  by (induction xs arbitrary: s) (auto split: prod.splits sum.splits)

text \<open>
  C9. A failed fetch is skipped. When the fetch of one identifier throws, the work
  items resolved are those of the identifiers before it followed by those of the
  identifiers after it, fetched from the state the failed fetch left: the identifier
  contributes nothing and the loop goes on.
\<close>

theorem fetchWorkItems_skips_failure:
  assumes "fetchWorkItems svc before s = (items1, s1)"
    and "svc_getWorkItem svc wid s1 = (Inl e, s2)"
    and "fetchWorkItems svc after s2 = (items2, s3)"
  shows "fetchWorkItems svc (before @ wid # after) s = (items1 @ items2, s3)"
  using assms by (simp add: fetchWorkItems_append)

theorem fetchWorkItems_skips_failure_witness:
  "fetchWorkItems exampleService [''300'', ''42'', ''100''] 0
     = ([exampleWorkItem 300 ''Typo in footer'' ''Closed'',
         exampleWorkItem 100 ''Login fails'' ''Active''], 5)"
proof -
  have a: "fetchWorkItems exampleService [''300''] 0
             = ([exampleWorkItem 300 ''Typo in footer'' ''Closed''], 1)"
    by code_simp
  have b: "svc_getWorkItem exampleService ''42'' 1
             = (Inl (Error ''API Error: 404 - no such work item''), 4)"
    by code_simp
  have c: "fetchWorkItems exampleService [''100''] 4
             = ([exampleWorkItem 100 ''Login fails'' ''Active''], 5)"
    by code_simp
  from fetchWorkItems_skips_failure[OF a b c] show ?thesis by simp
qed














lemma Set_add_member: "x \<in> set (Set_add x xs)"
  by (simp add: Set_add_def)

lemma Set_addAll_keeps: "x \<in> set xs \<Longrightarrow> x \<in> set (Set_addAll ys xs)"
  unfolding Set_addAll_def
  by (induction ys arbitrary: xs) (simp_all add: Set_add_def)

text \<open>
  The pull-request number of a merge commit goes into the set of work-item
  identifiers as it stands, and no method of the service that the pipeline calls asks
  the remote system for the work items linked to a pull request: the pipeline runs
  the same whatever that endpoint would answer.
\<close>

lemma mergedPr_number_collected:
  "prMatch (comment commit) = Some pr \<Longrightarrow> pr \<in> set (commitMessageIds commit ids)"
  unfolding commitMessageIds_def Let_def
  by (auto split: option.splits intro!: Set_addAll_keeps Set_add_member)

lemma pullrequest_links_never_read:
  "AzureDevOpsService (r\<lparr>GET_pullrequest_workitems := f\<rparr>) = AzureDevOpsService r"
proof -
  let ?r = "r\<lparr>GET_pullrequest_workitems := f\<rparr>"
  have tags: "getRepositoryTags ?r = getRepositoryTags r"
    by (simp add: getRepositoryTags_def fun_eq_iff)
  have deref: "resolveTagCommitId ?r = resolveTagCommitId r"
    by (simp add: resolveTagCommitId_def getTagObject_def fun_eq_iff)
  have "getMainBranchCommit ?r = getMainBranchCommit r"
    by (simp add: getMainBranchCommit_def fun_eq_iff
        cong: prod.case_cong sum.case_cong list.case_cong)
  moreover have "createBranch ?r = createBranch r"
    by (simp add: createBranch_def fun_eq_iff
        cong: prod.case_cong sum.case_cong list.case_cong)
  moreover have "createTag ?r = createTag r"
    by (simp add: createTag_def fun_eq_iff)
  moreover have "getCommitsBetweenTags ?r = getCommitsBetweenTags r"
    by (simp add: getCommitsBetweenTags_def tags deref fun_eq_iff
        cong: prod.case_cong sum.case_cong option.case_cong)
  moreover have "getCommitWorkItems ?r = getCommitWorkItems r"
    by (simp add: getCommitWorkItems_def fun_eq_iff)
  moreover have "getWorkItem ?r = getWorkItem r"
    by (simp add: getWorkItem_def fun_eq_iff)
  ultimately show ?thesis
    by (simp add: AzureDevOpsService_def)
qed

text \<open>
  C2, at the specification's own example. Pull request 42 is linked to work item 400
  on the remote system, the commit that merges it names 100 and 200 and carries a
  link to 300, and the link query of the commit answers with nothing. The identifiers
  collected are 300, 42, 100 and 200: the pull-request number itself, not the work
  item linked to the pull request.
\<close>

theorem mergedPr_links_not_followed:
  "getPullRequestWorkItems exampleRemote ''A'' ''42'' 0 = (Inr [''400''], 1)
   \<and> comment mergeCommit = ''Merged PR 42: fixes AB#100 and #200''
   \<and> map wir_id (case commit_workItems mergeCommit of Some links \<Rightarrow> links | None \<Rightarrow> []) = [''300'']
   \<and> getCommitWorkItems exampleRemote ''A'' (commitId mergeCommit) 0 = (Inr [], 1)
   \<and> collectWorkItemIds exampleService ''A'' [mergeCommit] [] 0
       = (Inr [''300'', ''42'', ''100'', ''200''], 1)"
  by code_simp

text \<open>
  A repository without an old tag name, which is one whose current version is absent,
  empty or \<^verbatim>\<open>'No releases'\<close>, never reaches the range and work-item stages: whatever
  the methods of those stages are replaced by, the turn of the loop is the same.
\<close>

lemma stages_skipped_without_old_tag:
  assumes "oldTagNameOf repo = None"
  shows "processRepo (svc\<lparr>svc_getCommitsBetweenTags := f, svc_getCommitWorkItems := g,
                           svc_getWorkItem := h\<rparr>) repo acc
         = processRepo svc repo acc"
  using assms
  by (cases acc) (simp add: processRepo_def Let_def cong: prod.case_cong sum.case_cong)

lemma oldTagNameOf_sentinels:
  "oldTagNameOf (repo\<lparr>currentVersion := None\<rparr>) = None"
  "oldTagNameOf (repo\<lparr>currentVersion := Some ''No releases''\<rparr>) = None"
  "oldTagNameOf (repo\<lparr>currentVersion := Some ''Error loading''\<rparr>) = Some ''Error loading''"
  by (simp_all add: oldTagNameOf_def)


end
